theory Spec2Isabelle
  imports Complex_Main "HOL-Library.Multiset"
begin

section \<open>The task table\<close>

text \<open>
  The scheduler of \<^verbatim>\<open>src/project-scheduler.py\<close> works on a pandas DataFrame with the
  columns \<^verbatim>\<open>taskID\<close>, \<^verbatim>\<open>predecessorTaskIDs\<close>, \<^verbatim>\<open>bestCaseHours\<close>,
  \<^verbatim>\<open>expectedHours\<close> and \<^verbatim>\<open>worstCaseHours\<close>. A row is a record; the frame is the list
  of its rows together with the derived column \<^verbatim>\<open>pert_duration\<close>, which is absent until
  the solver assigns it.

  Hours are Python floats in the source; here they are real numbers, so every statement
  below is about exact arithmetic. The column \<^verbatim>\<open>taskID\<close> holds strings (the loader
  converts it), on which \<^verbatim>\<open>astype(str)\<close> of line 7 is the identity.

  A cell of \<^verbatim>\<open>predecessorTaskIDs\<close> is missing (NaN or None), a string, or some other
  value, of which the code uses only its truth value and its \<^verbatim>\<open>str()\<close>.
\<close>

datatype cell = Missing | Text string | Other bool string

record task =
  taskID :: string
  predecessorTaskIDs :: cell
  bestCaseHours :: real
  expectedHours :: real
  worstCaseHours :: real

record frame =
  rows :: "task list"
  pert_duration :: "real list option"

section \<open>Strings: \<^verbatim>\<open>split(',')\<close> and \<^verbatim>\<open>strip()\<close>\<close>

text \<open>The characters below 256 that Python's \<^verbatim>\<open>str.strip()\<close> removes.\<close>

definition isspace :: "char \<Rightarrow> bool" where
  "isspace c = ((of_char c :: nat) \<in> set [9, 10, 11, 12, 13, 28, 29, 30, 31, 32, 133, 160])"

definition strip :: "string \<Rightarrow> string" where
  "strip s = rev (dropWhile isspace (rev (dropWhile isspace s)))"

fun split_comma :: "string \<Rightarrow> string list" where
  "split_comma [] = [[]]"
| "split_comma (c # cs) =
     (if c = CHR '','' then [] # split_comma cs
      else (case split_comma cs of
              [] \<Rightarrow> [[c]]
            | w # ws \<Rightarrow> (c # w) # ws))"

text \<open>Lines 30 to 34: the list of predecessor references of a row.\<close>

fun pred_list :: "cell \<Rightarrow> string list" where
  "pred_list Missing = []"
| "pred_list (Text s) =
     (if s = [] then [] else filter (\<lambda>p. p \<noteq> []) (map strip (split_comma s)))"
| "pred_list (Other truthy s) = (if truthy then [strip s] else [])"

section \<open>The PERT duration\<close>

text \<open>Lines 14 to 16, for one row.\<close>

definition pert :: "task \<Rightarrow> real" where
  "pert t = (bestCaseHours t + 4 * expectedHours t + worstCaseHours t) / 6"

text \<open>
  \<^verbatim>\<open>tasks_df.loc[tasks_df.taskID == key].iloc[0]\<close>: the first row with that identifier;
  \<open>None\<close> is the \<^verbatim>\<open>IndexError\<close> of \<^verbatim>\<open>iloc[0]\<close> on an empty selection.
\<close>

definition loc_first :: "task list \<Rightarrow> string \<Rightarrow> task option" where
  "loc_first df key = find (\<lambda>t. taskID t = key) df"

section \<open>The linear program\<close>

text \<open>
  The program has one variable \<^verbatim>\<open>start_time\<close> per key of the dictionary
  \<^verbatim>\<open>start_times\<close> (the task identifiers) and the variable \<^verbatim>\<open>total_duration\<close>, all
  with lower bound 0. Two shapes of constraint are added:
  line 39, \<^verbatim>\<open>start_times[task_id] >= start_times[pred] + pred_duration\<close>, and
  line 44, \<^verbatim>\<open>total_project_duration >= start_times[task_id] + duration\<close>.
\<close>

datatype constraint =
    StartAfter string string real
  | TotalAfter string real

definition warning :: "string \<Rightarrow> string \<Rightarrow> string" where
  "warning pred task_id =
     ''Warning: Predecessor '' @ pred @ '' not found for task '' @ task_id"

text \<open>
  Lines 36 to 42: the state is the constraint list of \<^verbatim>\<open>prob\<close> and the lines printed
  so far.
\<close>

fun add_predecessors ::
  "task list \<Rightarrow> string \<Rightarrow> string list \<Rightarrow> constraint list \<times> string list
     \<Rightarrow> constraint list \<times> string list" where
  "add_predecessors df task_id [] st = st"
| "add_predecessors df task_id (pred # rest) (prob, out) =
     (case loc_first df pred of
        Some row \<Rightarrow>
          add_predecessors df task_id rest
            (prob @ [StartAfter task_id pred (pert row)], out)
      | None \<Rightarrow>
          add_predecessors df task_id rest (prob, out @ [warning pred task_id]))"

text \<open>Lines 23 to 44: the loop over the rows.\<close>

fun add_tasks ::
  "task list \<Rightarrow> task list \<Rightarrow> constraint list \<times> string list
     \<Rightarrow> constraint list \<times> string list" where
  "add_tasks df [] st = st"
| "add_tasks df (task # rest) st =
     (case add_predecessors df (taskID task) (pred_list (predecessorTaskIDs task)) st of
        (prob, out) \<Rightarrow>
          add_tasks df rest (prob @ [TotalAfter (taskID task) (pert task)], out))"

definition build_problem :: "task list \<Rightarrow> constraint list \<times> string list" where
  "build_problem df = add_tasks df df ([], [])"

subsection \<open>What \<^verbatim>\<open>prob.solve()\<close> returns\<close>

text \<open>
  The solver is the external library PuLP. Its answer is a parameter of the model: the
  status, and the values of the variables. The code relies on the solver's contract only:
  status \<^verbatim>\<open>1\<close> (Optimal) comes with an assignment that satisfies the bounds and the
  constraints and minimises \<^verbatim>\<open>total_duration\<close>; any other status means that the
  program has no optimal assignment.
\<close>

datatype lp_status = Optimal | NotSolved | Infeasible | Unbounded | Undefined

fun LpStatus :: "lp_status \<Rightarrow> string" where
  "LpStatus Optimal = ''Optimal''"
| "LpStatus NotSolved = ''Not Solved''"
| "LpStatus Infeasible = ''Infeasible''"
| "LpStatus Unbounded = ''Unbounded''"
| "LpStatus Undefined = ''Undefined''"

record solution =
  sol_status :: lp_status
  start_value :: "string \<Rightarrow> real"
  total_value :: real

fun holds :: "(string \<Rightarrow> real) \<Rightarrow> real \<Rightarrow> constraint \<Rightarrow> bool" where
  "holds s T (StartAfter t p d) = (s p + d \<le> s t)"
| "holds s T (TotalAfter t d) = (s t + d \<le> T)"

definition feasible ::
  "string list \<Rightarrow> constraint list \<Rightarrow> (string \<Rightarrow> real) \<Rightarrow> real \<Rightarrow> bool" where
  "feasible keys prob s T =
     (list_all (\<lambda>k. 0 \<le> s k) keys \<and> 0 \<le> T \<and> list_all (holds s T) prob)"

definition optimal ::
  "string list \<Rightarrow> constraint list \<Rightarrow> (string \<Rightarrow> real) \<Rightarrow> real \<Rightarrow> bool" where
  "optimal keys prob s T =
     (feasible keys prob s T \<and> (\<forall>s' T'. feasible keys prob s' T' \<longrightarrow> T \<le> T'))"

definition solver_contract :: "task list \<Rightarrow> solution \<Rightarrow> bool" where
  "solver_contract df ans =
     (let keys = map taskID df; prob = fst (build_problem df) in
      (sol_status ans = Optimal \<longrightarrow> optimal keys prob (start_value ans) (total_value ans)) \<and>
      (sol_status ans \<noteq> Optimal \<longrightarrow> \<not> (\<exists>s T. optimal keys prob s T)))"

section \<open>The solver: \<^verbatim>\<open>optimize_project_schedule\<close>\<close>

datatype error = ValueError string | IndexError | KeyError string

text \<open>
  One entry of \<^verbatim>\<open>task_details\<close>. The keys \<^verbatim>\<open>taskID\<close> and \<^verbatim>\<open>pert_duration\<close> of the
  source are the fields \<open>res_taskID\<close> and \<open>res_pert_duration\<close>, since a row and the frame
  have fields of those names already.
\<close>

record task_result =
  res_taskID :: string
  start_time :: real
  res_pert_duration :: real
  best_case :: real
  expected_case :: real
  worst_case :: real
  end_time :: real

record results =
  status :: string
  total_project_duration :: real
  schedule :: "string \<rightharpoonup> real"
  task_details :: "task_result list"

text \<open>Lines 65 to 73: the dictionary \<^verbatim>\<open>task_result\<close>.\<close>

definition make_task_result :: "solution \<Rightarrow> string \<Rightarrow> task \<Rightarrow> task_result" where
  "make_task_result ans task_id task_row =
     \<lparr>res_taskID = task_id,
      start_time = start_value ans task_id,
      res_pert_duration = pert task_row,
      best_case = bestCaseHours task_row,
      expected_case = expectedHours task_row,
      worst_case = worstCaseHours task_row,
      end_time = start_value ans task_id + pert task_row\<rparr>"

text \<open>Lines 61 to 76: the loop over the column \<^verbatim>\<open>taskID\<close>.\<close>

fun extract_results ::
  "solution \<Rightarrow> task list \<Rightarrow> string list \<Rightarrow> (string \<rightharpoonup> real) \<times> task_result list
     \<Rightarrow> error + (string \<rightharpoonup> real) \<times> task_result list" where
  "extract_results ans df [] acc = Inr acc"
| "extract_results ans df (task_id # rest) (sched, details) =
     (case loc_first df task_id of
        None \<Rightarrow> Inl IndexError
      | Some task_row \<Rightarrow>
          extract_results ans df rest
            (sched(task_id \<mapsto> start_value ans task_id),
             details @ [make_task_result ans task_id task_row]))"

text \<open>
  The whole function. It returns the caller's frame as the call leaves it, the lines
  printed, and the result or the exception raised.
\<close>

definition optimize_project_schedule ::
  "solution \<Rightarrow> frame \<Rightarrow> frame \<times> string list \<times> (error + results)" where
  "optimize_project_schedule ans tasks_df =
     (let df = rows tasks_df;
          tasks_df' = tasks_df\<lparr>pert_duration := Some (map pert df)\<rparr>;
          out = snd (build_problem df)
      in if sol_status ans \<noteq> Optimal then
           (tasks_df', out,
            Inl (ValueError
              (''Could not find optimal solution. Status: '' @ LpStatus (sol_status ans))))
         else
           (case extract_results ans df (map taskID df) (Map.empty, []) of
              Inl e \<Rightarrow> (tasks_df', out, Inl e)
            | Inr (sched, details) \<Rightarrow>
                (tasks_df', out,
                 Inr \<lparr>status = LpStatus (sol_status ans),
                      total_project_duration = total_value ans,
                      schedule = sched,
                      task_details = details\<rparr>)))"

section \<open>The analyzer: \<^verbatim>\<open>analyze_project_schedule\<close>\<close>

text \<open>A row of \<^verbatim>\<open>schedule_df\<close>: an entry of \<^verbatim>\<open>task_details\<close> and its float.\<close>

record analyzed_row = task_result +
  float_time :: real

record analysis =
  a_total_project_duration :: real
  a_schedule :: "analyzed_row list"
  optimization_status :: string

text \<open>\<^verbatim>\<open>schedule_df['end_time'].max()\<close> on a column with at least one value.\<close>

fun column_max :: "real \<Rightarrow> real list \<Rightarrow> real" where
  "column_max x [] = x"
| "column_max x (y # ys) = column_max (max x y) ys"

definition with_float :: "real \<Rightarrow> task_result \<Rightarrow> analyzed_row" where
  "with_float m d = task_result.extend d (analyzed_row.fields (m - end_time d))"

text \<open>
  \<^verbatim>\<open>sort_values('start_time')\<close> is called with pandas' default \<^verbatim>\<open>kind='quicksort'\<close>,
  which reorders the rows by the indexer that numpy's \<^verbatim>\<open>argsort\<close> returns. The indexer
  is a parameter of the model, as the solver's answer is; its contract is that it is a
  permutation of the row positions along which the keys ascend.
\<close>

definition argsort_contract :: "real list \<Rightarrow> nat list \<Rightarrow> bool" where
  "argsort_contract keys indexer =
     (mset indexer = mset [0..<length keys] \<and> sorted (map (\<lambda>i. keys ! i) indexer))"

definition analyze_project_schedule ::
  "nat list \<Rightarrow> solution \<Rightarrow> frame \<Rightarrow> frame \<times> string list \<times> (error + analysis)" where
  "analyze_project_schedule indexer ans tasks_df =
     (case optimize_project_schedule ans tasks_df of
        (tasks_df', out, Inl e) \<Rightarrow> (tasks_df', out, Inl e)
      | (tasks_df', out, Inr optimization_results) \<Rightarrow>
          (case task_details optimization_results of
             [] \<Rightarrow> (tasks_df', out, Inl (KeyError ''end_time''))
           | d # ds \<Rightarrow>
               (let m = column_max (end_time d) (map end_time ds);
                    schedule_df = map (with_float m) (d # ds)
                in (tasks_df', out,
                    Inr \<lparr>a_total_project_duration =
                           total_project_duration optimization_results,
                         a_schedule = map (\<lambda>i. schedule_df ! i) indexer,
                         optimization_status = status optimization_results\<rparr>))))"

section \<open>The loops in closed form\<close>

text \<open>
  What the loops of lines 23 to 44 add for one row: a constraint for every reference
  that resolves, a warning for every reference that does not, and the constraint on the
  total.
\<close>

definition pred_constraints :: "task list \<Rightarrow> string \<Rightarrow> string list \<Rightarrow> constraint list" where
  "pred_constraints df task_id preds =
     concat (map (\<lambda>p. case loc_first df p of Some row \<Rightarrow> [StartAfter task_id p (pert row)] | None \<Rightarrow> []) preds)"

definition pred_warnings :: "task list \<Rightarrow> string \<Rightarrow> string list \<Rightarrow> string list" where
  "pred_warnings df task_id preds =
     concat (map (\<lambda>p. case loc_first df p of Some row \<Rightarrow> [] | None \<Rightarrow> [warning p task_id]) preds)"

definition task_constraints :: "task list \<Rightarrow> task \<Rightarrow> constraint list" where
  "task_constraints df t =
     pred_constraints df (taskID t) (pred_list (predecessorTaskIDs t)) @ [TotalAfter (taskID t) (pert t)]"

definition task_warnings :: "task list \<Rightarrow> task \<Rightarrow> string list" where
  "task_warnings df t = pred_warnings df (taskID t) (pred_list (predecessorTaskIDs t))"

text \<open>The entry of \<^verbatim>\<open>task_details\<close> for an identifier of the frame.\<close>

definition detail_of :: "solution \<Rightarrow> task list \<Rightarrow> string \<Rightarrow> task_result" where
  "detail_of ans df k = make_task_result ans k (the (loc_first df k))"

section \<open>Example inputs\<close>

text \<open>
  The scenario of the specification: A (1, 2, 3), B (2, 4, 6) after A, C (1, 1, 1)
  after B, and the answer of the solver with the starts 0, 2, 6 and the total 7.
\<close>

definition example_tasks :: frame where
  "example_tasks =
     \<lparr>rows =
        [\<lparr>taskID = ''A'', predecessorTaskIDs = Missing,
          bestCaseHours = 1, expectedHours = 2, worstCaseHours = 3\<rparr>,
         \<lparr>taskID = ''B'', predecessorTaskIDs = Text ''A'',
          bestCaseHours = 2, expectedHours = 4, worstCaseHours = 6\<rparr>,
         \<lparr>taskID = ''C'', predecessorTaskIDs = Text ''B'',
          bestCaseHours = 1, expectedHours = 1, worstCaseHours = 1\<rparr>],
      pert_duration = None\<rparr>"

definition example_answer :: solution where
  "example_answer =
     \<lparr>sol_status = Optimal,
      start_value = (\<lambda>k. if k = ''B'' then 2 else if k = ''C'' then 6 else 0),
      total_value = 7\<rparr>"

text \<open>The indexer that leaves three rows in place.\<close>

definition example_indexer :: "nat list" where
  "example_indexer = [0, 1, 2]"




text \<open>A frame with the five columns and no row, and the solver's answer to its program.\<close>

definition empty_tasks :: frame where
  "empty_tasks = \<lparr>rows = [], pert_duration = None\<rparr>"

definition empty_answer :: solution where
  "empty_answer = \<lparr>sol_status = Optimal, start_value = (\<lambda>k. 0), total_value = 0\<rparr>"

section \<open>Cycles of the validated graph\<close>

text \<open>
  \<open>p\<close> is a validated predecessor of \<open>t\<close>: some row of \<open>t\<close> lists \<open>p\<close>, and \<open>p\<close> is
  the identifier of a row (so line 38 finds it and line 39 adds the constraint).
\<close>

definition resolved_edge :: "task list \<Rightarrow> string \<Rightarrow> string \<Rightarrow> bool" where
  "resolved_edge df p t =
     (loc_first df p \<noteq> None \<and>
      list_ex (\<lambda>row. taskID row = t \<and> p \<in> set (pred_list (predecessorTaskIDs row))) df)"

fun chain :: "task list \<Rightarrow> string list \<Rightarrow> bool" where
  "chain df [] = True"
| "chain df [a] = True"
| "chain df (a # b # rest) = (resolved_edge df a b \<and> chain df (b # rest))"

text \<open>The duration line 38 reads for an identifier.\<close>

definition first_pert :: "task list \<Rightarrow> string \<Rightarrow> real" where
  "first_pert df k = (case loc_first df k of Some row \<Rightarrow> pert row | None \<Rightarrow> 0)"

text \<open>
  \<open>ks\<close> is a cycle: each of its tasks is a validated predecessor of the next, and the
  last one of the first.
\<close>

definition is_cycle :: "task list \<Rightarrow> string list \<Rightarrow> bool" where
  "is_cycle df ks = (ks \<noteq> [] \<and> chain df (ks @ [hd ks]))"

definition cycle_duration :: "task list \<Rightarrow> string list \<Rightarrow> real" where
  "cycle_duration df ks = sum_list (map (first_pert df) ks)"

text \<open>
  A depends on B and B on A. With the hours (1, 2, 3) the program has no solution; with
  all hours 0 it has one.
\<close>

definition cycle_tasks :: frame where
  "cycle_tasks =
     \<lparr>rows =
        [\<lparr>taskID = ''A'', predecessorTaskIDs = Text ''B'',
          bestCaseHours = 1, expectedHours = 2, worstCaseHours = 3\<rparr>,
         \<lparr>taskID = ''B'', predecessorTaskIDs = Text ''A'',
          bestCaseHours = 1, expectedHours = 2, worstCaseHours = 3\<rparr>],
      pert_duration = None\<rparr>"

definition cycle_answer :: solution where
  "cycle_answer = \<lparr>sol_status = Infeasible, start_value = (\<lambda>k. 0), total_value = 0\<rparr>"

definition zero_cycle_tasks :: frame where
  "zero_cycle_tasks =
     \<lparr>rows =
        [\<lparr>taskID = ''A'', predecessorTaskIDs = Text ''B'',
          bestCaseHours = 0, expectedHours = 0, worstCaseHours = 0\<rparr>,
         \<lparr>taskID = ''B'', predecessorTaskIDs = Text ''A'',
          bestCaseHours = 0, expectedHours = 0, worstCaseHours = 0\<rparr>],
      pert_duration = None\<rparr>"

definition zero_cycle_answer :: solution where
  "zero_cycle_answer = \<lparr>sol_status = Optimal, start_value = (\<lambda>k. 0), total_value = 0\<rparr>"



section \<open>Inputs that differ in unresolved references only\<close>

text \<open>
  Two tables agree up to unresolved references when they have the same rows in the same
  order, but for the predecessor cells, and corresponding cells list the same references
  once those that name no task are left out.
\<close>

definition same_but_unresolved :: "task list \<Rightarrow> task list \<Rightarrow> bool" where
  "same_but_unresolved df df' =
     list_all2 (\<lambda>t t'.
        taskID t' = taskID t \<and> bestCaseHours t' = bestCaseHours t \<and>
        expectedHours t' = expectedHours t \<and> worstCaseHours t' = worstCaseHours t \<and>
        filter (\<lambda>p. loc_first df p \<noteq> None) (pred_list (predecessorTaskIDs t')) =
        filter (\<lambda>p. loc_first df p \<noteq> None) (pred_list (predecessorTaskIDs t))) df df'"

text \<open>Task A lists the predecessor Z, which is no task; and the same task without it.\<close>

definition dangling_tasks :: frame where
  "dangling_tasks =
     \<lparr>rows =
        [\<lparr>taskID = ''A'', predecessorTaskIDs = Text ''Z'',
          bestCaseHours = 1, expectedHours = 2, worstCaseHours = 3\<rparr>],
      pert_duration = None\<rparr>"

definition lone_tasks :: frame where
  "lone_tasks =
     \<lparr>rows =
        [\<lparr>taskID = ''A'', predecessorTaskIDs = Missing,
          bestCaseHours = 1, expectedHours = 2, worstCaseHours = 3\<rparr>],
      pert_duration = None\<rparr>"

definition lone_answer :: solution where
  "lone_answer = \<lparr>sol_status = Optimal, start_value = (\<lambda>k. 0), total_value = 2\<rparr>"

section \<open>Inputs outside the data model, and a second answer\<close>

text \<open>
  Two rows with the same identifier A, of durations 1 and 5: the program has one start
  variable for A and one constraint on the total per row. And one task with the hours
  (-6, -6, -6).
\<close>

definition dup_tasks :: frame where
  "dup_tasks =
     \<lparr>rows =
        [\<lparr>taskID = ''A'', predecessorTaskIDs = Missing,
          bestCaseHours = 1, expectedHours = 1, worstCaseHours = 1\<rparr>,
         \<lparr>taskID = ''A'', predecessorTaskIDs = Missing,
          bestCaseHours = 5, expectedHours = 5, worstCaseHours = 5\<rparr>],
      pert_duration = None\<rparr>"

definition dup_answer :: solution where
  "dup_answer = \<lparr>sol_status = Optimal, start_value = (\<lambda>k. 0), total_value = 5\<rparr>"

definition dup_indexer :: "nat list" where
  "dup_indexer = [0, 1]"

definition negative_tasks :: frame where
  "negative_tasks =
     \<lparr>rows =
        [\<lparr>taskID = ''A'', predecessorTaskIDs = Missing,
          bestCaseHours = - 6, expectedHours = - 6, worstCaseHours = - 6\<rparr>],
      pert_duration = None\<rparr>"

definition negative_answer :: solution where
  "negative_answer = \<lparr>sol_status = Optimal, start_value = (\<lambda>k. 0), total_value = 0\<rparr>"

definition negative_indexer :: "nat list" where
  "negative_indexer = [0]"



section \<open>Lemmas on the loops\<close>

lemma add_predecessors_eq:
  "add_predecessors df i preds (prob, out) =
     (prob @ pred_constraints df i preds, out @ pred_warnings df i preds)"
  by (induction preds arbitrary: prob out)
     (auto simp: pred_constraints_def pred_warnings_def split: option.splits)

lemma add_tasks_eq:
  "add_tasks df ts (prob, out) =
     (prob @ concat (map (task_constraints df) ts), out @ concat (map (task_warnings df) ts))"
  by (induction ts arbitrary: prob out)
     (auto simp: add_predecessors_eq task_constraints_def task_warnings_def)

lemma build_problem_eq:
  "build_problem df = (concat (map (task_constraints df) df), concat (map (task_warnings df) df))"
  by (simp add: build_problem_def add_tasks_eq)

lemma loc_first_Some: "loc_first df k = Some row \<Longrightarrow> row \<in> set df \<and> taskID row = k"
  unfolding loc_first_def by (induction df) (auto split: if_splits)

lemma loc_first_None: "(loc_first df k = None) = (k \<notin> taskID ` set df)"
  unfolding loc_first_def by (induction df) auto

lemma loc_first_distinct:
  "distinct (map taskID df) \<Longrightarrow> t \<in> set df \<Longrightarrow> loc_first df (taskID t) = Some t"
  unfolding loc_first_def by (induction df) (auto simp: image_iff)

lemma extract_results_eq:
  "set ids \<subseteq> taskID ` set df \<Longrightarrow>
   extract_results ans df ids (sched, details) =
     Inr (\<lambda>k. if k \<in> set ids then Some (start_value ans k) else sched k,
          details @ map (detail_of ans df) ids)"
proof (induction ids arbitrary: sched details)
  case Nil
  then show ?case by simp
next
  case (Cons i ids)
  from Cons.prems obtain row where row: "loc_first df i = Some row"
    using loc_first_None [of df i] by (cases "loc_first df i") auto
  from Cons.prems have sub: "set ids \<subseteq> taskID ` set df" by simp
  show ?case
    by (simp add: row Cons.IH [OF sub] detail_of_def fun_eq_iff)
qed

lemma optimize_success:
  assumes "sol_status ans = Optimal"
  shows "optimize_project_schedule ans fr =
     (fr\<lparr>pert_duration := Some (map pert (rows fr))\<rparr>,
      concat (map (task_warnings (rows fr)) (rows fr)),
      Inr \<lparr>status = ''Optimal'',
           total_project_duration = total_value ans,
           schedule = (\<lambda>k. if k \<in> taskID ` set (rows fr) then Some (start_value ans k) else None),
           task_details = map (\<lambda>t. detail_of ans (rows fr) (taskID t)) (rows fr)\<rparr>)"
proof -
  have "set (map taskID (rows fr)) \<subseteq> taskID ` set (rows fr)" by simp
  from extract_results_eq [OF this, of ans Map.empty "[]"] assms show ?thesis
    by (simp add: optimize_project_schedule_def build_problem_eq comp_def Let_def)
qed

lemma optimize_failure:
  assumes "sol_status ans \<noteq> Optimal"
  shows "optimize_project_schedule ans fr =
     (fr\<lparr>pert_duration := Some (map pert (rows fr))\<rparr>,
      concat (map (task_warnings (rows fr)) (rows fr)),
      Inl (ValueError (''Could not find optimal solution. Status: '' @ LpStatus (sol_status ans))))"
  using assms by (simp add: optimize_project_schedule_def build_problem_eq Let_def)

lemma optimize_frame:
  "fst (optimize_project_schedule ans fr) = fr\<lparr>pert_duration := Some (map pert (rows fr))\<rparr>"
  by (cases "sol_status ans = Optimal") (simp_all add: optimize_success optimize_failure)

lemma optimize_details:
  assumes "optimize_project_schedule ans fr = (fr', out, Inr res)"
  shows "task_details res = map (\<lambda>t. detail_of ans (rows fr) (taskID t)) (rows fr)"
    and "sol_status ans = Optimal"
    and "total_project_duration res = total_value ans"
    and "schedule res = (\<lambda>k. if k \<in> taskID ` set (rows fr) then Some (start_value ans k) else None)"
  using assms by (cases "sol_status ans = Optimal"; auto simp add: optimize_success optimize_failure)+

section \<open>The example satisfies the solver's contract\<close>

lemma example_problem:
  "build_problem (rows example_tasks) =
     ([TotalAfter ''A'' 2, StartAfter ''B'' ''A'' 2, TotalAfter ''B'' 4,
       StartAfter ''C'' ''B'' 4, TotalAfter ''C'' 1], [])"
  by (simp add: example_tasks_def build_problem_def loc_first_def pert_def strip_def
      isspace_def)

lemma example_contract: "solver_contract (rows example_tasks) example_answer"
proof -
  have "7 \<le> T'"
    if "feasible [''A'', ''B'', ''C'']
          [TotalAfter ''A'' 2, StartAfter ''B'' ''A'' 2, TotalAfter ''B'' 4,
           StartAfter ''C'' ''B'' 4, TotalAfter ''C'' 1] s' T'" for s' T'
    using that by (simp add: feasible_def)
  then show ?thesis
    by (simp add: solver_contract_def example_problem optimal_def)
       (simp add: example_tasks_def example_answer_def feasible_def)
qed

lemma feasible_StartAfter:
  "feasible keys prob s T \<Longrightarrow> StartAfter t p d \<in> set prob \<Longrightarrow> s p + d \<le> s t"
  by (auto simp: feasible_def list_all_iff)

lemma feasible_TotalAfter:
  "feasible keys prob s T \<Longrightarrow> TotalAfter t d \<in> set prob \<Longrightarrow> s t + d \<le> T"
  by (auto simp: feasible_def list_all_iff)

lemma feasible_bound:
  "feasible keys prob s T \<Longrightarrow> k \<in> set keys \<Longrightarrow> 0 \<le> s k"
  by (auto simp: feasible_def list_all_iff)

lemma StartAfter_in_problem:
  assumes "t \<in> set df" and "p \<in> set (pred_list (predecessorTaskIDs t))"
    and "loc_first df p = Some row"
  shows "StartAfter (taskID t) p (pert row) \<in> set (fst (build_problem df))"
proof -
  have "StartAfter (taskID t) p (pert row) \<in> set (task_constraints df t)"
    using assms(2,3) by (force simp: task_constraints_def pred_constraints_def)
  with assms(1) show ?thesis by (auto simp: build_problem_eq)
qed

lemma TotalAfter_in_problem:
  "t \<in> set df \<Longrightarrow> TotalAfter (taskID t) (pert t) \<in> set (fst (build_problem df))"
  by (auto simp: build_problem_eq task_constraints_def)

lemma pred_constraints_cases:
  assumes "c \<in> set (pred_constraints df i ps)"
  shows "\<exists>p \<in> set ps. \<exists>row. loc_first df p = Some row \<and> c = StartAfter i p (pert row)"
proof -
  from assms obtain p where p: "p \<in> set ps"
    and c: "c \<in> set (case loc_first df p of Some row \<Rightarrow> [StartAfter i p (pert row)] | None \<Rightarrow> [])"
    by (auto simp: pred_constraints_def)
  then show ?thesis by (cases "loc_first df p") auto
qed

lemma problem_cases:
  assumes "c \<in> set (fst (build_problem df))"
  shows "(\<exists>t \<in> set df. c = TotalAfter (taskID t) (pert t)) \<or>
         (\<exists>t \<in> set df. \<exists>p \<in> set (pred_list (predecessorTaskIDs t)). \<exists>row.
            loc_first df p = Some row \<and> c = StartAfter (taskID t) p (pert row))"
proof -
  from assms obtain t where t: "t \<in> set df" and c: "c \<in> set (task_constraints df t)"
    by (auto simp: build_problem_eq)
  from c have "c = TotalAfter (taskID t) (pert t) \<or>
      c \<in> set (pred_constraints df (taskID t) (pred_list (predecessorTaskIDs t)))"
    by (auto simp: task_constraints_def)
  with t pred_constraints_cases show ?thesis by blast
qed

lemma contract_feasible:
  assumes "solver_contract df ans" and "sol_status ans = Optimal"
  shows "feasible (map taskID df) (fst (build_problem df)) (start_value ans) (total_value ans)"
    and "feasible (map taskID df) (fst (build_problem df)) s' T' \<Longrightarrow> total_value ans \<le> T'"
  using assms by (auto simp: solver_contract_def optimal_def Let_def)

lemma detail_of_simps:
  "res_taskID (detail_of ans df k) = k"
  "start_time (detail_of ans df k) = start_value ans k"
  "end_time (detail_of ans df k) = start_value ans k + res_pert_duration (detail_of ans df k)"
  "loc_first df k = Some row \<Longrightarrow> res_pert_duration (detail_of ans df k) = pert row"
  by (simp_all add: detail_of_def make_task_result_def)

lemma holds_StartAfter_total: "holds s T (StartAfter t p d) = holds s T' (StartAfter t p d)"
  by simp

lemma makespan_eq:
  assumes c: "solver_contract df ans" and ok: "sol_status ans = Optimal"
    and ne: "df \<noteq> []" and nonneg: "\<forall>t \<in> set df. 0 \<le> pert t"
  shows "total_value ans = Max ((\<lambda>t. start_value ans (taskID t) + pert t) ` set df)"
proof -
  let ?s = "start_value ans" and ?T = "total_value ans"
  let ?E = "(\<lambda>t. ?s (taskID t) + pert t) ` set df"
  let ?M = "Max ?E"
  note feas = contract_feasible(1) [OF c ok]
  have fin: "finite ?E" and nonempty: "?E \<noteq> {}" using ne by auto
  have le: "?M \<le> ?T"
    using fin nonempty feasible_TotalAfter [OF feas TotalAfter_in_problem] by auto
  obtain t0 where t0: "t0 \<in> set df" using ne by (cases df) auto
  have "0 \<le> ?s (taskID t0)" using feasible_bound [OF feas] t0 by simp
  moreover have "0 \<le> pert t0" using nonneg t0 by simp
  moreover have "?s (taskID t0) + pert t0 \<le> ?M" using fin t0 by (intro Max_ge) auto
  ultimately have M0: "0 \<le> ?M" by linarith
  have "holds ?s ?M c'" if c': "c' \<in> set (fst (build_problem df))" for c'
  proof -
    from problem_cases [OF c'] show ?thesis
    proof
      assume "\<exists>t \<in> set df. c' = TotalAfter (taskID t) (pert t)"
      then obtain t where "t \<in> set df" "c' = TotalAfter (taskID t) (pert t)" by blast
      then show ?thesis using fin by (auto intro: Max_ge)
    next
      assume "\<exists>t \<in> set df. \<exists>p \<in> set (pred_list (predecessorTaskIDs t)). \<exists>row.
            loc_first df p = Some row \<and> c' = StartAfter (taskID t) p (pert row)"
      then obtain t p row where "t \<in> set df" "c' = StartAfter (taskID t) p (pert row)" by blast
      with feasible_StartAfter [OF feas] c' show ?thesis by simp
    qed
  qed
  with feas M0 have "feasible (map taskID df) (fst (build_problem df)) ?s ?M"
    by (simp add: feasible_def list_all_iff)
  from contract_feasible(2) [OF c ok this] le show ?thesis by simp
qed

lemma pert_nonneg:
  "0 \<le> bestCaseHours t \<Longrightarrow> 0 \<le> expectedHours t \<Longrightarrow> 0 \<le> worstCaseHours t \<Longrightarrow> 0 \<le> pert t"
  by (simp add: pert_def)

lemma end_times_distinct:
  assumes "distinct (map taskID df)"
  shows "end_time ` set (map (\<lambda>t. detail_of ans df (taskID t)) df) =
         (\<lambda>t. start_value ans (taskID t) + pert t) ` set df"
  using loc_first_distinct [OF assms]
  by (auto simp: detail_of_simps image_iff intro!: bexI)

lemma column_max_eq: "column_max x ys = Max (set (x # ys))"
proof (induction ys arbitrary: x)
  case Nil
  then show ?case by simp
next
  case (Cons y ys)
  have "Max (insert (max x y) (set ys)) = Max (insert x (insert y (set ys)))"
    by (cases "set ys = {}") (simp_all add: max.assoc)
  with Cons show ?case by simp
qed

lemma with_float_simps:
  "float_time (with_float m d) = m - end_time d"
  "end_time (with_float m d) = end_time d"
  "start_time (with_float m d) = start_time d"
  "res_taskID (with_float m d) = res_taskID d"
  by (simp_all add: with_float_def task_result.defs analyzed_row.defs)

lemma analyze_success:
  assumes "analyze_project_schedule indexer ans fr = (fr', out, Inr a)"
  obtains res where "optimize_project_schedule ans fr = (fr', out, Inr res)"
    and "task_details res \<noteq> []"
    and "a_total_project_duration a = total_project_duration res"
    and "a_schedule a =
           map (\<lambda>i. map (with_float (Max (end_time ` set (task_details res))))
                       (task_details res) ! i) indexer"
proof -
  obtain f o' r where opt: "optimize_project_schedule ans fr = (f, o', r)"
    by (cases "optimize_project_schedule ans fr") auto
  with assms obtain res where r: "r = Inr res"
    by (cases r) (auto simp: analyze_project_schedule_def)
  from assms opt r obtain d ds where dds: "task_details res = d # ds"
    by (cases "task_details res") (auto simp: analyze_project_schedule_def)
  have m: "column_max (end_time d) (map end_time ds) = Max (end_time ` set (task_details res))"
    by (simp add: column_max_eq dds)
  from assms opt r dds have "f = fr'" "o' = out"
    and a: "a = \<lparr>a_total_project_duration = total_project_duration res,
                  a_schedule = map (\<lambda>i. map (with_float (column_max (end_time d) (map end_time ds)))
                       (d # ds) ! i) indexer,
                  optimization_status = status res\<rparr>"
    by (auto simp: analyze_project_schedule_def Let_def)
  show ?thesis
  proof (rule that [of res])
    show "optimize_project_schedule ans fr = (fr', out, Inr res)"
      using opt r \<open>f = fr'\<close> \<open>o' = out\<close> by simp
    show "task_details res \<noteq> []" using dds by simp
    show "a_total_project_duration a = total_project_duration res" using a by simp
    show "a_schedule a =
           map (\<lambda>i. map (with_float (Max (end_time ` set (task_details res))))
                       (task_details res) ! i) indexer"
      using a by (simp add: dds column_max_eq)
  qed
qed

lemma indexer_perm:
  assumes "mset indexer = mset [0..<length xs]"
  shows "mset (map ((!) xs) indexer) = mset xs"
proof -
  have "mset (map ((!) xs) indexer) = image_mset ((!) xs) (mset indexer)" by simp
  also have "\<dots> = image_mset ((!) xs) (mset [0..<length xs])" by (simp only: assms)
  also have "\<dots> = mset (map ((!) xs) [0..<length xs])" by simp
  also have "\<dots> = mset xs" by (simp only: map_nth)
  finally show ?thesis .
qed

lemma indexer_range:
  assumes "mset indexer = mset [0..<n]" and "i \<in> set indexer"
  shows "i < n"
proof -
  from assms(2) have "i \<in># mset indexer" by simp
  then have "i \<in># mset [0..<n]" by (simp only: assms(1))
  then show ?thesis by simp
qed


lemma total_eq_max_end:
  assumes "solver_contract (rows fr) ans"
    and "optimize_project_schedule ans fr = (fr', out, Inr res)"
    and "rows fr \<noteq> []"
    and "distinct (map taskID (rows fr))"
    and "\<forall>t \<in> set (rows fr).
           0 \<le> bestCaseHours t \<and> 0 \<le> expectedHours t \<and> 0 \<le> worstCaseHours t"
  shows "total_project_duration res = Max (end_time ` set (task_details res))"
proof -
  note det = optimize_details [OF assms(2)]
  have nonneg: "\<forall>t \<in> set (rows fr). 0 \<le> pert t"
    using assms(5) by (simp add: pert_nonneg)
  show ?thesis
    using makespan_eq [OF assms(1) det(2) assms(3) nonneg]
    by (simp only: det(1,3) end_times_distinct [OF assms(4)])
qed

lemma analyzed_rows:
  assumes "argsort_contract (map (\<lambda>t. start_value ans (taskID t)) (rows fr)) indexer"
    and "optimize_project_schedule ans fr = (fr', out, Inr res)"
    and "a_schedule a = map (\<lambda>i. map (with_float m) (task_details res) ! i) indexer"
  shows "mset (a_schedule a) = mset (map (with_float m) (task_details res))"
    and "map start_time (a_schedule a) =
           map (\<lambda>i. map (\<lambda>t. start_value ans (taskID t)) (rows fr) ! i) indexer"
proof -
  let ?sdf = "map (with_float m) (task_details res)"
  have len: "length ?sdf = length (rows fr)"
    by (simp add: optimize_details(1) [OF assms(2)])
  have len': "length (map (\<lambda>t. start_value ans (taskID t)) (rows fr)) = length ?sdf"
    by (simp add: optimize_details(1) [OF assms(2)])
  from assms(1) have perm: "mset indexer = mset [0..<length ?sdf]"
    unfolding argsort_contract_def len' by (rule conjunct1)
  from indexer_perm [OF perm] show "mset (a_schedule a) = mset ?sdf"
    by (simp only: assms(3))
  have "start_time (?sdf ! i) = map (\<lambda>t. start_value ans (taskID t)) (rows fr) ! i"
    if "i \<in> set indexer" for i
  proof -
    from indexer_range [OF perm that] have i: "i < length (rows fr)" by (simp only: len)
    then show ?thesis
      by (simp add: optimize_details(1) [OF assms(2)] with_float_simps detail_of_simps)
  qed
  then show "map start_time (a_schedule a) =
           map (\<lambda>i. map (\<lambda>t. start_value ans (taskID t)) (rows fr) ! i) indexer"
    by (simp add: assms(3))
qed

lemma analyze_succeeds:
  assumes "sol_status ans = Optimal" and "rows fr \<noteq> []"
  shows "\<exists>fr' out a. analyze_project_schedule indexer ans fr = (fr', out, Inr a)"
proof -
  from assms(2) obtain t ts where "rows fr = t # ts" by (cases "rows fr") auto
  then show ?thesis
    unfolding analyze_project_schedule_def optimize_success [OF assms(1)]
    by (simp add: Let_def)
qed






lemma analyze_frame:
  "fst (analyze_project_schedule indexer ans fr) = fst (optimize_project_schedule ans fr)"
proof -
  obtain f out r where opt: "optimize_project_schedule ans fr = (f, out, r)"
    by (cases "optimize_project_schedule ans fr") auto
  show ?thesis
    by (cases r; cases "task_details (projr r)")
       (auto simp: analyze_project_schedule_def opt Let_def split: list.splits)
qed

lemma empty_problem: "build_problem [] = ([], [])"
  by (simp add: build_problem_def)

lemma empty_optimal: "optimal [] [] s T = (T = 0)"
proof
  assume "optimal [] [] s T"
  then have "0 \<le> T" and "feasible [] [] s 0 \<longrightarrow> T \<le> 0"
    by (auto simp: optimal_def feasible_def)
  then show "T = 0" by (simp add: feasible_def)
next
  assume "T = 0"
  then show "optimal [] [] s T" by (simp add: optimal_def feasible_def)
qed

lemma empty_contract: "solver_contract (rows empty_tasks) empty_answer"
  by (simp add: solver_contract_def empty_tasks_def empty_answer_def empty_problem
      empty_optimal)

lemma resolved_edge_bound:
  assumes "feasible keys (fst (build_problem df)) s T" and "resolved_edge df p t"
  shows "s p + first_pert df p \<le> s t"
proof -
  from assms(2) obtain prow where prow: "loc_first df p = Some prow"
    by (auto simp: resolved_edge_def)
  from assms(2) obtain row where row: "row \<in> set df" "taskID row = t"
    "p \<in> set (pred_list (predecessorTaskIDs row))"
    by (auto simp: resolved_edge_def list_ex_iff)
  from StartAfter_in_problem [OF row(1,3) prow]
  have "StartAfter t p (pert prow) \<in> set (fst (build_problem df))" by (simp add: row(2))
  from feasible_StartAfter [OF assms(1) this] show ?thesis
    by (simp add: first_pert_def prow)
qed

lemma chain_bound:
  assumes "feasible keys (fst (build_problem df)) s T"
  shows "chain df (a # ks) \<Longrightarrow>
         s a + sum_list (map (first_pert df) (butlast (a # ks))) \<le> s (last (a # ks))"
proof (induction ks arbitrary: a)
  case Nil
  then show ?case by simp
next
  case (Cons b ks)
  from Cons.prems have e: "resolved_edge df a b" and c: "chain df (b # ks)" by simp_all
  from resolved_edge_bound [OF assms e] Cons.IH [OF c] show ?case by simp
qed

lemma positive_cycle_infeasible:
  assumes "is_cycle df ks" and "0 < cycle_duration df ks"
  shows "\<not> feasible keys (fst (build_problem df)) s T"
proof
  assume f: "feasible keys (fst (build_problem df)) s T"
  from assms(1) obtain a rest where ks: "ks = a # rest" and c: "chain df (a # rest @ [a])"
    by (cases ks) (auto simp: is_cycle_def)
  from chain_bound [OF f c] have "s a + cycle_duration df ks \<le> s a"
    by (simp add: ks cycle_duration_def butlast_append)
  with assms(2) show False by simp
qed

lemma cycle_tasks_cycle: "is_cycle (rows cycle_tasks) [''A'', ''B'']"
  by (simp add: is_cycle_def resolved_edge_def cycle_tasks_def loc_first_def strip_def
      isspace_def)

lemma cycle_tasks_duration: "cycle_duration (rows cycle_tasks) [''A'', ''B''] = 4"
  by (simp add: cycle_duration_def first_pert_def cycle_tasks_def loc_first_def pert_def)

lemma cycle_contract: "solver_contract (rows cycle_tasks) cycle_answer"
proof -
  have "\<not> feasible keys (fst (build_problem (rows cycle_tasks))) s T" for keys s T
    by (rule positive_cycle_infeasible [OF cycle_tasks_cycle]) (simp add: cycle_tasks_duration)
  then show ?thesis
    by (simp add: solver_contract_def optimal_def cycle_answer_def)
qed

lemma zero_cycle_problem:
  "fst (build_problem (rows zero_cycle_tasks)) =
     [StartAfter ''A'' ''B'' 0, TotalAfter ''A'' 0, StartAfter ''B'' ''A'' 0, TotalAfter ''B'' 0]"
  by (simp add: zero_cycle_tasks_def build_problem_def loc_first_def pert_def strip_def
      isspace_def)

lemma zero_cycle_contract: "solver_contract (rows zero_cycle_tasks) zero_cycle_answer"
  by (simp add: solver_contract_def zero_cycle_problem optimal_def zero_cycle_answer_def)
     (simp add: feasible_def zero_cycle_tasks_def)





lemma pred_warnings_eq:
  "pred_warnings df i ps = map (\<lambda>p. warning p i) (filter (\<lambda>p. p \<notin> taskID ` set df) ps)"
proof -
  have "(case loc_first df p of Some row \<Rightarrow> [] | None \<Rightarrow> [warning p i]) =
        (if p \<notin> taskID ` set df then [warning p i] else [])" for p
    using loc_first_None [of df p] by (cases "loc_first df p") auto
  then show ?thesis
    by (induction ps) (simp_all add: pred_warnings_def)
qed

lemma pred_constraints_filter:
  "pred_constraints df i (filter (\<lambda>p. loc_first df p \<noteq> None) ps) = pred_constraints df i ps"
  by (induction ps) (auto simp: pred_constraints_def)

lemma same_loc_first:
  assumes "list_all2 (\<lambda>t t'. taskID t' = taskID t \<and> f t' = f t) df df'"
  shows "map_option f (loc_first df' k) = map_option f (loc_first df k)"
  using assms unfolding loc_first_def by (induction rule: list_all2_induct) auto

lemma list_all2_map_eq:
  "list_all2 (\<lambda>x y. g y = f x) xs ys \<Longrightarrow> map g ys = map f xs"
  by (induction rule: list_all2_induct) simp_all

lemma same_but_unresolved_hours:
  assumes "same_but_unresolved df df'"
    and "\<And>t t' :: task. bestCaseHours t' = bestCaseHours t \<Longrightarrow>
          expectedHours t' = expectedHours t \<Longrightarrow>
          worstCaseHours t' = worstCaseHours t \<Longrightarrow> g t' = g t"
  shows "list_all2 (\<lambda>t t'. taskID t' = taskID t \<and> g t' = g t) df df'"
  using assms(1) unfolding same_but_unresolved_def
proof (rule list_all2_mono)
  fix t t' :: task
  assume "taskID t' = taskID t \<and> bestCaseHours t' = bestCaseHours t \<and>
        expectedHours t' = expectedHours t \<and> worstCaseHours t' = worstCaseHours t \<and>
        filter (\<lambda>p. loc_first df p \<noteq> None) (pred_list (predecessorTaskIDs t')) =
        filter (\<lambda>p. loc_first df p \<noteq> None) (pred_list (predecessorTaskIDs t))"
  then have "taskID t' = taskID t" "bestCaseHours t' = bestCaseHours t"
    "expectedHours t' = expectedHours t" "worstCaseHours t' = worstCaseHours t"
    by blast+
  with assms(2) [of t' t] show "taskID t' = taskID t \<and> g t' = g t" by blast
qed

lemma same_but_unresolvedD:
  assumes "same_but_unresolved df df'"
  shows "map taskID df' = map taskID df"
    and "map_option pert (loc_first df' k) = map_option pert (loc_first df k)"
    and "map_option (make_task_result ans k) (loc_first df' k) =
         map_option (make_task_result ans k) (loc_first df k)"
    and "(loc_first df' k = None) = (loc_first df k = None)"
proof -
  have "list_all2 (\<lambda>t t'. taskID t' = taskID t \<and> pert t' = pert t) df df'"
    by (rule same_but_unresolved_hours [OF assms]) (simp add: pert_def)
  then have "list_all2 (\<lambda>t t'. taskID t' = taskID t) df df'"
    by (rule list_all2_mono) blast
  then show ids: "map taskID df' = map taskID df"
    by (rule list_all2_map_eq)
  show "map_option pert (loc_first df' k) = map_option pert (loc_first df k)"
    by (rule same_loc_first, rule same_but_unresolved_hours [OF assms]) (simp add: pert_def)
  show "map_option (make_task_result ans k) (loc_first df' k) =
         map_option (make_task_result ans k) (loc_first df k)"
    by (rule same_loc_first, rule same_but_unresolved_hours [OF assms])
       (simp add: make_task_result_def pert_def)
  have "set (map taskID df') = set (map taskID df)" by (simp only: ids)
  then show "(loc_first df' k = None) = (loc_first df k = None)"
    by (simp add: loc_first_None)
qed

lemma same_pred_constraints:
  assumes "same_but_unresolved df df'"
  shows "pred_constraints df' i ps = pred_constraints df i ps"
proof -
  have "(case loc_first df' p of Some row \<Rightarrow> [StartAfter i p (pert row)] | None \<Rightarrow> []) =
        (case loc_first df p of Some row \<Rightarrow> [StartAfter i p (pert row)] | None \<Rightarrow> [])" for p
    using same_but_unresolvedD(2) [OF assms, of p]
    by (cases "loc_first df p"; cases "loc_first df' p") auto
  then show ?thesis by (simp add: pred_constraints_def)
qed

lemma same_problem:
  assumes "same_but_unresolved df df'"
  shows "fst (build_problem df') = fst (build_problem df)"
proof -
  have "list_all2 (\<lambda>t t'. task_constraints df' t' = task_constraints df t) df df'"
    using assms unfolding same_but_unresolved_def
  proof (rule list_all2_mono)
    fix t t' :: task
    assume h: "taskID t' = taskID t \<and> bestCaseHours t' = bestCaseHours t \<and>
        expectedHours t' = expectedHours t \<and> worstCaseHours t' = worstCaseHours t \<and>
        filter (\<lambda>p. loc_first df p \<noteq> None) (pred_list (predecessorTaskIDs t')) =
        filter (\<lambda>p. loc_first df p \<noteq> None) (pred_list (predecessorTaskIDs t))"
    have "pred_constraints df' (taskID t') (pred_list (predecessorTaskIDs t')) =
          pred_constraints df (taskID t) (pred_list (predecessorTaskIDs t'))"
      using h by (simp add: same_pred_constraints [OF assms])
    also have "\<dots> = pred_constraints df (taskID t)
        (filter (\<lambda>p. loc_first df p \<noteq> None) (pred_list (predecessorTaskIDs t')))"
      by (simp only: pred_constraints_filter)
    also have "\<dots> = pred_constraints df (taskID t) (pred_list (predecessorTaskIDs t))"
      using h by (simp only: pred_constraints_filter)
    finally show "task_constraints df' t' = task_constraints df t"
      using h by (simp add: task_constraints_def pert_def)
  qed
  then have "map (task_constraints df') df' = map (task_constraints df) df"
    by (rule list_all2_map_eq)
  then show ?thesis by (simp add: build_problem_eq)
qed

lemma same_result:
  assumes "same_but_unresolved (rows fr) (rows fr2)"
  shows "snd (snd (optimize_project_schedule ans fr2)) =
         snd (snd (optimize_project_schedule ans fr))"
proof (cases "sol_status ans = Optimal")
  case True
  note ids = same_but_unresolvedD(1) [OF assms]
  have set_ids: "taskID ` set (rows fr2) = taskID ` set (rows fr)"
    using arg_cong [OF ids, of set] by simp
  have det: "detail_of ans (rows fr2) k = detail_of ans (rows fr) k"
    if "k \<in> taskID ` set (rows fr)" for k
  proof -
    from that obtain row where row: "loc_first (rows fr) k = Some row"
      using loc_first_None [of "rows fr" k] by (cases "loc_first (rows fr) k") auto
    with same_but_unresolvedD(3) [OF assms, of ans k] show ?thesis
      by (auto simp: detail_of_def)
  qed
  have "map (\<lambda>t. detail_of ans (rows fr2) (taskID t)) (rows fr2) =
        map (detail_of ans (rows fr2)) (map taskID (rows fr2))"
    by (simp add: comp_def)
  also have "\<dots> = map (detail_of ans (rows fr2)) (map taskID (rows fr))"
    by (simp only: ids)
  also have "\<dots> = map (\<lambda>t. detail_of ans (rows fr) (taskID t)) (rows fr)"
    by (simp add: det)
  finally show ?thesis
    by (simp add: optimize_success [OF True] set_ids)
next
  case False
  then show ?thesis by (simp add: optimize_failure)
qed

lemma dangling_same: "same_but_unresolved (rows dangling_tasks) (rows lone_tasks)"
  by (simp add: same_but_unresolved_def dangling_tasks_def lone_tasks_def loc_first_def
      strip_def isspace_def)

lemma dangling_problem:
  "build_problem (rows dangling_tasks) =
     ([TotalAfter ''A'' 2], [''Warning: Predecessor Z not found for task A''])"
  by (simp add: dangling_tasks_def build_problem_def loc_first_def pert_def strip_def
      isspace_def warning_def)

lemma dangling_contract: "solver_contract (rows dangling_tasks) lone_answer"
proof -
  have "2 \<le> T'" if "feasible [''A''] [TotalAfter ''A'' 2] s' T'" for s' T'
    using that by (simp add: feasible_def)
  then show ?thesis
    by (simp add: solver_contract_def dangling_problem optimal_def)
       (simp add: dangling_tasks_def lone_answer_def feasible_def)
qed

lemma example_argsort:
  "argsort_contract (map (\<lambda>t. start_value example_answer (taskID t)) (rows example_tasks))
     example_indexer"
  by (simp add: argsort_contract_def example_indexer_def example_tasks_def example_answer_def
      upt_rec)

lemma reported_end_le_total:
  assumes "solver_contract (rows fr) ans"
    and "optimize_project_schedule ans fr = (fr', out, Inr res)"
    and "d \<in> set (task_details res)"
  shows "end_time d \<le> total_project_duration res"
proof -
  let ?df = "rows fr"
  note det = optimize_details [OF assms(2)]
  from assms(3) obtain t where t: "t \<in> set ?df" and d: "d = detail_of ans ?df (taskID t)"
    by (auto simp: det(1))
  from t obtain row where row: "loc_first ?df (taskID t) = Some row"
    using loc_first_None [of ?df "taskID t"] by (cases "loc_first ?df (taskID t)") auto
  from loc_first_Some [OF row] have r: "row \<in> set ?df" "taskID row = taskID t" by simp_all
  from feasible_TotalAfter [OF contract_feasible(1) [OF assms(1) det(2)]
      TotalAfter_in_problem [OF r(1)]]
  show ?thesis by (simp add: d detail_of_simps row r(2) det(3))
qed




lemma dup_problem:
  "fst (build_problem (rows dup_tasks)) = [TotalAfter ''A'' 1, TotalAfter ''A'' 5]"
  by (simp add: dup_tasks_def build_problem_def pert_def)

lemma dup_keys: "map taskID (rows dup_tasks) = [''A'', ''A'']"
  by (simp add: dup_tasks_def)

lemma dup_feasible:
  "feasible (map taskID (rows dup_tasks)) (fst (build_problem (rows dup_tasks))) s T =
     (0 \<le> s ''A'' \<and> s ''A'' + 5 \<le> T)"
  unfolding dup_problem dup_keys by (auto simp: feasible_def)

lemma dup_optimal:
  "optimal (map taskID (rows dup_tasks)) (fst (build_problem (rows dup_tasks))) s T =
     (s ''A'' = 0 \<and> T = 5)"
proof
  assume o: "optimal (map taskID (rows dup_tasks)) (fst (build_problem (rows dup_tasks))) s T"
  then have f: "0 \<le> s ''A''" "s ''A'' + 5 \<le> T"
    unfolding optimal_def dup_feasible by simp_all
  from o have all: "\<And>s' T'. 0 \<le> s' ''A'' \<Longrightarrow> s' ''A'' + 5 \<le> T' \<Longrightarrow> T \<le> T'"
    unfolding optimal_def dup_feasible by simp
  from all [of "\<lambda>k. 0" 5] have "T \<le> 5" by simp
  with f show "s ''A'' = 0 \<and> T = 5" by linarith
next
  assume a: "s ''A'' = 0 \<and> T = 5"
  then show "optimal (map taskID (rows dup_tasks)) (fst (build_problem (rows dup_tasks))) s T"
    unfolding optimal_def dup_feasible by auto
qed

lemma dup_forced:
  "solver_contract (rows dup_tasks) ans =
     (sol_status ans = Optimal \<and> start_value ans ''A'' = 0 \<and> total_value ans = 5)"
proof -
  have "\<exists>s T. s ''A'' = (0::real) \<and> T = (5::real)" by auto
  then show ?thesis
    by (auto simp: solver_contract_def dup_optimal Let_def)
qed

lemma dup_contract: "solver_contract (rows dup_tasks) dup_answer"
  by (simp add: dup_forced dup_answer_def)

lemma dup_argsort:
  "argsort_contract (map (\<lambda>t. start_value dup_answer (taskID t)) (rows dup_tasks)) dup_indexer"
  by (simp add: argsort_contract_def dup_indexer_def dup_tasks_def dup_answer_def upt_rec)

lemma negative_problem:
  "fst (build_problem (rows negative_tasks)) = [TotalAfter ''A'' (- 6)]"
  by (simp add: negative_tasks_def build_problem_def pert_def)

lemma negative_contract: "solver_contract (rows negative_tasks) negative_answer"
proof -
  have "0 \<le> T'" if "feasible [''A''] [TotalAfter ''A'' (- 6)] s' T'" for s' T'
    using that by (simp add: feasible_def)
  then show ?thesis
    by (simp add: solver_contract_def negative_problem optimal_def)
       (simp add: negative_tasks_def negative_answer_def feasible_def)
qed

lemma negative_argsort:
  "argsort_contract (map (\<lambda>t. start_value negative_answer (taskID t)) (rows negative_tasks))
     negative_indexer"
  by (simp add: argsort_contract_def negative_indexer_def negative_tasks_def
      negative_answer_def upt_rec)


lemma analyzed_view:
  assumes "analyze_project_schedule indexer ans fr = (fr', out, Inr a)"
    and "\<forall>i \<in> set indexer. i < length (rows fr)"
  shows "map (\<lambda>r. (res_taskID r, end_time r, float_time r)) (a_schedule a) =
         map (\<lambda>i. (taskID (rows fr ! i),
                    end_time (detail_of ans (rows fr) (taskID (rows fr ! i))),
                    Max ((\<lambda>t. end_time (detail_of ans (rows fr) (taskID t))) ` set (rows fr)) -
                    end_time (detail_of ans (rows fr) (taskID (rows fr ! i))))) indexer"
    and "a_total_project_duration a = total_value ans"
proof -
  from assms(1) obtain res where opt: "optimize_project_schedule ans fr = (fr', out, Inr res)"
    and tot: "a_total_project_duration a = total_project_duration res"
    and sch: "a_schedule a =
           map (\<lambda>i. map (with_float (Max (end_time ` set (task_details res))))
                       (task_details res) ! i) indexer"
    by (rule analyze_success)
  note det = optimize_details [OF opt]
  have m: "end_time ` set (task_details res) =
      (\<lambda>t. end_time (detail_of ans (rows fr) (taskID t))) ` set (rows fr)"
    by (simp add: det(1) image_image)
  show "a_total_project_duration a = total_value ans" by (simp add: tot det(3))
  show "map (\<lambda>r. (res_taskID r, end_time r, float_time r)) (a_schedule a) =
         map (\<lambda>i. (taskID (rows fr ! i),
                    end_time (detail_of ans (rows fr) (taskID (rows fr ! i))),
                    Max ((\<lambda>t. end_time (detail_of ans (rows fr) (taskID t))) ` set (rows fr)) -
                    end_time (detail_of ans (rows fr) (taskID (rows fr ! i))))) indexer"
    unfolding sch m using assms(2)
    by (simp add: det(1) with_float_simps detail_of_simps(1))
qed

section \<open>Claims\<close>

text \<open>
  C3. The duration computed for every task is
  \<open>(bestCaseHours + 4 * expectedHours + worstCaseHours) / 6\<close>: the column
  \<^verbatim>\<open>pert_duration\<close> the call leaves in the frame holds that value for every row,
  whatever the three inputs are and whatever the solver answers, every entry of a
  successful result reports that value of the hours it reports, and for (1, 2, 3) the
  value is 2.
\<close>

theorem pert_duration_formula:
  "pert_duration (fst (optimize_project_schedule ans tasks_df)) =
     Some (map (\<lambda>t. (bestCaseHours t + 4 * expectedHours t + worstCaseHours t) / 6)
             (rows tasks_df)) \<and>
   (\<forall>fr' out res. optimize_project_schedule ans tasks_df = (fr', out, Inr res) \<longrightarrow>
      (\<forall>d \<in> set (task_details res).
         res_pert_duration d = (best_case d + 4 * expected_case d + worst_case d) / 6)) \<and>
   pert \<lparr>taskID = i, predecessorTaskIDs = c, bestCaseHours = 1, expectedHours = 2,
         worstCaseHours = 3\<rparr> = 2"
proof (intro conjI allI impI ballI)
  show "pert_duration (fst (optimize_project_schedule ans tasks_df)) =
     Some (map (\<lambda>t. (bestCaseHours t + 4 * expectedHours t + worstCaseHours t) / 6)
             (rows tasks_df))"
    by (simp add: optimize_frame pert_def)
next
  fix fr' out res d
  assume "optimize_project_schedule ans tasks_df = (fr', out, Inr res)"
    and "d \<in> set (task_details res)"
  then show "res_pert_duration d = (best_case d + 4 * expected_case d + worst_case d) / 6"
    by (auto simp: optimize_details(1) detail_of_def make_task_result_def pert_def)
next
  show "pert \<lparr>taskID = i, predecessorTaskIDs = c, bestCaseHours = 1, expectedHours = 2,
         worstCaseHours = 3\<rparr> = 2"
    by (simp add: pert_def)
qed


theorem pert_duration_formula_witness:
  "\<exists>res. snd (snd (optimize_project_schedule example_answer example_tasks)) = Inr res \<and>
     task_details res \<noteq> [] \<and>
     (\<forall>d \<in> set (task_details res).
        res_pert_duration d = (best_case d + 4 * expected_case d + worst_case d) / 6)"
proof -
  obtain fr' out r where r: "optimize_project_schedule example_answer example_tasks = (fr', out, r)"
    by (cases "optimize_project_schedule example_answer example_tasks") auto
  have ok: "sol_status example_answer = Optimal" by (simp add: example_answer_def)
  from r obtain res where res: "r = Inr res" and nonempty: "task_details res \<noteq> []"
    by (auto simp: optimize_success [OF ok] example_tasks_def)
  from pert_duration_formula [of example_answer example_tasks "''A''" Missing] r res
  have "\<forall>d \<in> set (task_details res).
        res_pert_duration d = (best_case d + 4 * expected_case d + worst_case d) / 6"
    by blast
  with r res nonempty show ?thesis by auto
qed

text \<open>
  C1. Precedence is respected. When the solver's answer meets its contract and the call
  succeeds, then for every row \<open>t\<close> and every reference \<open>p\<close> of \<open>t\<close> that resolves to a
  task, both tasks are reported, the end of \<open>p\<close> is its start plus its duration, and
  \<open>t\<close> starts no earlier than \<open>p\<close> ends.
\<close>

theorem precedence_respected:
  assumes "solver_contract (rows fr) ans"
    and "optimize_project_schedule ans fr = (fr', out, Inr res)"
    and "t \<in> set (rows fr)"
    and "p \<in> set (pred_list (predecessorTaskIDs t))"
    and "p \<in> taskID ` set (rows fr)"
  shows "(\<exists>dt \<in> set (task_details res). res_taskID dt = taskID t) \<and>
         (\<exists>dp \<in> set (task_details res). res_taskID dp = p) \<and>
         (\<forall>dt \<in> set (task_details res). \<forall>dp \<in> set (task_details res).
            res_taskID dt = taskID t \<and> res_taskID dp = p \<longrightarrow>
              schedule res (taskID t) = Some (start_time dt) \<and>
              end_time dp = start_time dp + res_pert_duration dp \<and>
              end_time dp \<le> start_time dt)"
proof -
  let ?df = "rows fr"
  note det = optimize_details [OF assms(2)]
  from assms(5) obtain row where row: "loc_first ?df p = Some row"
    using loc_first_None [of ?df p] by (cases "loc_first ?df p") auto
  have "StartAfter (taskID t) p (pert row) \<in> set (fst (build_problem ?df))"
    by (rule StartAfter_in_problem [OF assms(3,4) row])
  with contract_feasible(1) [OF assms(1) det(2)]
  have le: "start_value ans p + pert row \<le> start_value ans (taskID t)"
    by (rule feasible_StartAfter)
  have ex1: "\<exists>dt \<in> set (task_details res). res_taskID dt = taskID t"
    using assms(3) by (auto simp: det(1) detail_of_simps)
  have ex2: "\<exists>dp \<in> set (task_details res). res_taskID dp = p"
    using assms(5) by (auto simp: det(1) detail_of_simps)
  have all: "schedule res (taskID t) = Some (start_time dt) \<and>
              end_time dp = start_time dp + res_pert_duration dp \<and>
              end_time dp \<le> start_time dt"
    if "dt \<in> set (task_details res)" "dp \<in> set (task_details res)"
      "res_taskID dt = taskID t" "res_taskID dp = p" for dt dp
  proof -
    from that(1,3) have dt: "dt = detail_of ans ?df (taskID t)"
      by (auto simp: det(1) detail_of_simps)
    from that(2,4) have dp: "dp = detail_of ans ?df p"
      by (auto simp: det(1) detail_of_simps)
    show ?thesis
      using le assms(3) by (simp add: dt dp detail_of_simps row det(4))
  qed
  from ex1 ex2 all show ?thesis by blast
qed

theorem precedence_respected_witness:
  "solver_contract (rows example_tasks) example_answer \<and>
   (\<exists>res. snd (snd (optimize_project_schedule example_answer example_tasks)) = Inr res \<and>
      (\<exists>dt \<in> set (task_details res). \<exists>dp \<in> set (task_details res).
         res_taskID dt = ''B'' \<and> res_taskID dp = ''A'' \<and> end_time dp \<le> start_time dt))"
proof -
  obtain fr' out r where r: "optimize_project_schedule example_answer example_tasks = (fr', out, r)"
    by (cases "optimize_project_schedule example_answer example_tasks") auto
  have ok: "sol_status example_answer = Optimal" by (simp add: example_answer_def)
  from r obtain res where res: "r = Inr res"
    by (auto simp: optimize_success [OF ok])
  let ?t = "\<lparr>taskID = ''B'', predecessorTaskIDs = Text ''A'',
          bestCaseHours = 2, expectedHours = 4, worstCaseHours = 6\<rparr>"
  have t: "?t \<in> set (rows example_tasks)" by (simp add: example_tasks_def)
  have p: "''A'' \<in> set (pred_list (predecessorTaskIDs ?t))"
    by (simp add: strip_def isspace_def)
  have k: "''A'' \<in> taskID ` set (rows example_tasks)" by (simp add: example_tasks_def)
  from precedence_respected [OF example_contract r [unfolded res] t p k]
  have "\<exists>dt \<in> set (task_details res). \<exists>dp \<in> set (task_details res).
         res_taskID dt = ''B'' \<and> res_taskID dp = ''A'' \<and> end_time dp \<le> start_time dt"
    by simp blast
  with r res example_contract show ?thesis by auto
qed




text \<open>
  C10, as the code has it. The solver keeps every row of the caller's frame as it is and
  assigns the column \<^verbatim>\<open>pert_duration\<close>, on success and on failure alike; the analyzer
  leaves the frame as its call of the solver leaves it. A second call changes nothing
  more.
\<close>

theorem input_frame_gains_pert_column:
  "rows (fst (optimize_project_schedule ans fr)) = rows fr \<and>
   pert_duration (fst (optimize_project_schedule ans fr)) = Some (map pert (rows fr)) \<and>
   fst (analyze_project_schedule indexer ans fr) = fst (optimize_project_schedule ans fr) \<and>
   fst (optimize_project_schedule ans' (fst (optimize_project_schedule ans fr))) =
     fst (optimize_project_schedule ans fr)"
  by (simp add: optimize_frame analyze_frame)

theorem input_frame_gains_pert_column_witness:
  "rows (fst (optimize_project_schedule example_answer example_tasks)) = rows example_tasks \<and>
   pert_duration (fst (optimize_project_schedule example_answer example_tasks)) =
     Some [2, 4, 1]"
  using input_frame_gains_pert_column [of example_answer example_tasks example_indexer example_answer]
  by (simp add: example_tasks_def pert_def)

text \<open>
  C10 as stated fails: the call changes the caller's frame, which has no column
  \<^verbatim>\<open>pert_duration\<close> before the call and has it afterwards.
\<close>

theorem input_frame_counterexample:
  "pert_duration example_tasks = None \<and>
   pert_duration (fst (optimize_project_schedule example_answer example_tasks)) =
     Some [2, 4, 1] \<and>
   fst (analyze_project_schedule example_indexer example_answer example_tasks) \<noteq>
     example_tasks"
proof -
  have p: "pert_duration (fst (optimize_project_schedule example_answer example_tasks)) =
     Some [2, 4, 1]"
    by (simp add: optimize_frame) (simp add: example_tasks_def pert_def)
  moreover have "pert_duration example_tasks = None" by (simp add: example_tasks_def)
  ultimately show ?thesis by (auto simp: analyze_frame)
qed

text \<open>
  C6, as the code has it. Given no task, the solver succeeds whenever its answer meets
  the contract: the status is Optimal, the total is 0, the schedule and the task details
  are empty, and nothing is printed.
\<close>

theorem empty_task_set_succeeds:
  assumes "rows fr = []" and "solver_contract (rows fr) ans"
  shows "snd (optimize_project_schedule ans fr) =
     ([], Inr \<lparr>status = ''Optimal'', total_project_duration = 0, schedule = Map.empty,
               task_details = []\<rparr>)"
proof -
  from assms have c: "(sol_status ans = Optimal \<longrightarrow> total_value ans = 0) \<and>
      (sol_status ans \<noteq> Optimal \<longrightarrow> False)"
    by (simp add: solver_contract_def empty_problem empty_optimal)
  then have ok: "sol_status ans = Optimal" and tot: "total_value ans = 0" by auto
  show ?thesis by (simp add: optimize_success [OF ok] assms(1) tot)
qed

theorem empty_task_set_succeeds_witness:
  "rows empty_tasks = [] \<and> solver_contract (rows empty_tasks) empty_answer \<and>
   snd (optimize_project_schedule empty_answer empty_tasks) =
     ([], Inr \<lparr>status = ''Optimal'', total_project_duration = 0, schedule = Map.empty,
               task_details = []\<rparr>)"
proof -
  have e: "rows empty_tasks = []" by (simp add: empty_tasks_def)
  from empty_task_set_succeeds [OF e empty_contract] e empty_contract show ?thesis by simp
qed

text \<open>
  C6 as stated fails: on the frame without rows the solver returns a result, with total 0.
\<close>

theorem empty_task_set_counterexample:
  "solver_contract (rows empty_tasks) empty_answer \<and>
   optimize_project_schedule empty_answer empty_tasks =
     (\<lparr>rows = [], pert_duration = Some []\<rparr>, [],
      Inr \<lparr>status = ''Optimal'', total_project_duration = 0, schedule = Map.empty,
           task_details = []\<rparr>)"
proof -
  have ok: "sol_status empty_answer = Optimal" by (simp add: empty_answer_def)
  have "optimize_project_schedule empty_answer empty_tasks =
     (\<lparr>rows = [], pert_duration = Some []\<rparr>, [],
      Inr \<lparr>status = ''Optimal'', total_project_duration = 0, schedule = Map.empty,
           task_details = []\<rparr>)"
    unfolding optimize_success [OF ok]
    by (simp add: empty_tasks_def empty_answer_def)
  with empty_contract show ?thesis by simp
qed

text \<open>
  C5, as the code has it. When the validated graph has a cycle along which the durations
  sum to more than 0, and the solver's answer meets its contract, the status is not
  Optimal and the call raises \<^verbatim>\<open>ValueError\<close> with the message
  \<^verbatim>\<open>Could not find optimal solution. Status: \<close> followed by the name of the status; no
  schedule is returned.
\<close>

theorem positive_cycle_raises_value_error:
  assumes "solver_contract (rows fr) ans"
    and "is_cycle (rows fr) ks"
    and "0 < cycle_duration (rows fr) ks"
  shows "sol_status ans \<noteq> Optimal \<and>
         snd (snd (optimize_project_schedule ans fr)) =
           Inl (ValueError
             (''Could not find optimal solution. Status: '' @ LpStatus (sol_status ans)))"
proof -
  have no: "sol_status ans \<noteq> Optimal"
  proof
    assume ok: "sol_status ans = Optimal"
    from contract_feasible(1) [OF assms(1) ok] positive_cycle_infeasible [OF assms(2,3)]
    show False by blast
  qed
  then show ?thesis by (simp add: optimize_failure)
qed

theorem positive_cycle_raises_value_error_witness:
  "solver_contract (rows cycle_tasks) cycle_answer \<and>
   is_cycle (rows cycle_tasks) [''A'', ''B''] \<and>
   0 < cycle_duration (rows cycle_tasks) [''A'', ''B''] \<and>
   snd (snd (optimize_project_schedule cycle_answer cycle_tasks)) =
     Inl (ValueError ''Could not find optimal solution. Status: Infeasible'')"
proof -
  have pos: "0 < cycle_duration (rows cycle_tasks) [''A'', ''B'']"
    by (simp add: cycle_tasks_duration)
  from positive_cycle_raises_value_error [OF cycle_contract cycle_tasks_cycle pos]
  have "snd (snd (optimize_project_schedule cycle_answer cycle_tasks)) =
     Inl (ValueError ''Could not find optimal solution. Status: Infeasible'')"
    by (simp add: cycle_answer_def)
  with cycle_contract cycle_tasks_cycle pos show ?thesis by simp
qed

text \<open>
  C5 as stated fails twice. On the cycle of A and B with hours (1, 2, 3) the failure is
  the \<^verbatim>\<open>ValueError\<close> that carries the solver's status string and names no task. On
  the same cycle with all hours 0 the program is feasible and the call returns a
  schedule.
\<close>

theorem cycle_detected_counterexample:
  "solver_contract (rows cycle_tasks) cycle_answer \<and>
   is_cycle (rows cycle_tasks) [''A'', ''B''] \<and>
   snd (snd (optimize_project_schedule cycle_answer cycle_tasks)) =
     Inl (ValueError ''Could not find optimal solution. Status: Infeasible'') \<and>
   solver_contract (rows zero_cycle_tasks) zero_cycle_answer \<and>
   is_cycle (rows zero_cycle_tasks) [''A'', ''B''] \<and>
   (case snd (snd (optimize_project_schedule zero_cycle_answer zero_cycle_tasks)) of
      Inl e \<Rightarrow> None
    | Inr res \<Rightarrow>
        Some (status res, total_project_duration res,
              map (\<lambda>d. (res_taskID d, start_time d, end_time d)) (task_details res))) =
     Some (''Optimal'', 0, [(''A'', 0, 0), (''B'', 0, 0)])"
proof -
  have no: "sol_status cycle_answer \<noteq> Optimal" by (simp add: cycle_answer_def)
  have ok: "sol_status zero_cycle_answer = Optimal" by (simp add: zero_cycle_answer_def)
  have 1: "snd (snd (optimize_project_schedule cycle_answer cycle_tasks)) =
     Inl (ValueError ''Could not find optimal solution. Status: Infeasible'')"
    unfolding optimize_failure [OF no] by (simp add: cycle_answer_def)
  have 2: "is_cycle (rows zero_cycle_tasks) [''A'', ''B'']"
    by (simp add: is_cycle_def resolved_edge_def zero_cycle_tasks_def loc_first_def strip_def
      isspace_def)
  have 3: "(case snd (snd (optimize_project_schedule zero_cycle_answer zero_cycle_tasks)) of
      Inl e \<Rightarrow> None
    | Inr res \<Rightarrow>
        Some (status res, total_project_duration res,
              map (\<lambda>d. (res_taskID d, start_time d, end_time d)) (task_details res))) =
     Some (''Optimal'', 0, [(''A'', 0, 0), (''B'', 0, 0)])"
    unfolding optimize_success [OF ok]
    by (simp add: zero_cycle_tasks_def zero_cycle_answer_def detail_of_def
        make_task_result_def loc_first_def pert_def)
  from cycle_contract cycle_tasks_cycle 1 zero_cycle_contract 2 3 show ?thesis by simp
qed

text \<open>
  C7, as the code has it. The lines printed by the solver are exactly one warning for
  every reference that names no task, in the order of the rows and of the references,
  each naming the reference and the referencing task. For the program and for the value
  returned such a reference counts for nothing: an input that differs only in
  unresolved references gives the same constraints and the same result. The value
  returned consists of the status, the total, the schedule and the task details, so the
  warnings reach the caller as printed lines only.
\<close>

theorem unresolved_predecessor_printed_and_skipped:
  assumes "same_but_unresolved (rows fr) (rows fr2)"
  shows "fst (snd (optimize_project_schedule ans fr)) =
           concat (map (\<lambda>t.
             map (\<lambda>p. ''Warning: Predecessor '' @ p @ '' not found for task '' @ taskID t)
               (filter (\<lambda>p. p \<notin> taskID ` set (rows fr)) (pred_list (predecessorTaskIDs t))))
             (rows fr)) \<and>
         fst (build_problem (rows fr2)) = fst (build_problem (rows fr)) \<and>
         snd (snd (optimize_project_schedule ans fr2)) =
           snd (snd (optimize_project_schedule ans fr))"
proof -
  have "fst (snd (optimize_project_schedule ans fr)) =
      concat (map (task_warnings (rows fr)) (rows fr))"
    by (cases "sol_status ans = Optimal") (simp_all add: optimize_success optimize_failure)
  moreover have "task_warnings (rows fr) = (\<lambda>t.
             map (\<lambda>p. ''Warning: Predecessor '' @ p @ '' not found for task '' @ taskID t)
               (filter (\<lambda>p. p \<notin> taskID ` set (rows fr)) (pred_list (predecessorTaskIDs t))))"
    by (rule ext) (simp add: task_warnings_def pred_warnings_eq warning_def)
  ultimately have "fst (snd (optimize_project_schedule ans fr)) =
           concat (map (\<lambda>t.
             map (\<lambda>p. ''Warning: Predecessor '' @ p @ '' not found for task '' @ taskID t)
               (filter (\<lambda>p. p \<notin> taskID ` set (rows fr)) (pred_list (predecessorTaskIDs t))))
             (rows fr))"
    by (simp only:)
  with same_problem [OF assms] same_result [OF assms] show ?thesis by simp
qed

theorem unresolved_predecessor_printed_and_skipped_witness:
  "same_but_unresolved (rows dangling_tasks) (rows lone_tasks) \<and>
   fst (snd (optimize_project_schedule lone_answer dangling_tasks)) =
     [''Warning: Predecessor Z not found for task A''] \<and>
   snd (snd (optimize_project_schedule lone_answer lone_tasks)) =
     snd (snd (optimize_project_schedule lone_answer dangling_tasks))"
proof -
  from unresolved_predecessor_printed_and_skipped [OF dangling_same, of lone_answer]
  have "fst (snd (optimize_project_schedule lone_answer dangling_tasks)) =
     [''Warning: Predecessor Z not found for task A'']"
    and "snd (snd (optimize_project_schedule lone_answer lone_tasks)) =
     snd (snd (optimize_project_schedule lone_answer dangling_tasks))"
    by (simp_all add: dangling_tasks_def strip_def isspace_def)
  with dangling_same show ?thesis by simp
qed

text \<open>
  C7 as stated fails in its last part: the warning is printed, and is no part of what the
  call returns.
\<close>

theorem warnings_returned_counterexample:
  "solver_contract (rows dangling_tasks) lone_answer \<and>
   optimize_project_schedule lone_answer dangling_tasks =
     (\<lparr>rows = rows dangling_tasks, pert_duration = Some [2]\<rparr>,
      [''Warning: Predecessor Z not found for task A''],
      Inr \<lparr>status = ''Optimal'', total_project_duration = 2,
           schedule = [''A'' \<mapsto> 0],
           task_details =
             [\<lparr>res_taskID = ''A'', start_time = 0, res_pert_duration = 2, best_case = 1,
               expected_case = 2, worst_case = 3, end_time = 2\<rparr>]\<rparr>)"
proof -
  have ok: "sol_status lone_answer = Optimal" by (simp add: lone_answer_def)
  have s: "(\<lambda>k. if k \<in> taskID ` set (rows dangling_tasks)
                then Some (start_value lone_answer k) else None) = [''A'' \<mapsto> 0]"
    by (auto simp: fun_eq_iff dangling_tasks_def lone_answer_def)
  have w: "concat (map (task_warnings (rows dangling_tasks)) (rows dangling_tasks)) =
      [''Warning: Predecessor Z not found for task A'']"
    using dangling_problem by (simp add: build_problem_eq)
  have d: "map (\<lambda>t. detail_of lone_answer (rows dangling_tasks) (taskID t))
        (rows dangling_tasks) =
      [\<lparr>res_taskID = ''A'', start_time = 0, res_pert_duration = 2, best_case = 1,
        expected_case = 2, worst_case = 3, end_time = 2\<rparr>]"
    by (simp add: dangling_tasks_def detail_of_def make_task_result_def loc_first_def
        pert_def lone_answer_def)
  have p: "map pert (rows dangling_tasks) = [2]"
    by (simp add: dangling_tasks_def pert_def)
  have t: "total_value lone_answer = 2" by (simp add: lone_answer_def)
  have f: "dangling_tasks\<lparr>pert_duration := Some [2]\<rparr> =
      \<lparr>rows = rows dangling_tasks, pert_duration = Some [2]\<rparr>"
    by (simp add: dangling_tasks_def)
  have "optimize_project_schedule lone_answer dangling_tasks =
     (\<lparr>rows = rows dangling_tasks, pert_duration = Some [2]\<rparr>,
      [''Warning: Predecessor Z not found for task A''],
      Inr \<lparr>status = ''Optimal'', total_project_duration = 2,
           schedule = [''A'' \<mapsto> 0],
           task_details =
             [\<lparr>res_taskID = ''A'', start_time = 0, res_pert_duration = 2, best_case = 1,
               expected_case = 2, worst_case = 3, end_time = 2\<rparr>]\<rparr>)"
    unfolding optimize_success [OF ok] s w d p t f by (rule refl)
  with dangling_contract show ?thesis by simp
qed

text \<open>
  C4, as the code has it. When the solver's answer meets its contract and the call
  succeeds, every reported end is the reported start plus the reported duration, and no
  end exceeds the reported total. If moreover there is at least one task, the
  identifiers are distinct and no hours are negative, the total is the greatest end.
\<close>

theorem makespan_is_max_end:
  assumes "solver_contract (rows fr) ans"
    and "optimize_project_schedule ans fr = (fr', out, Inr res)"
  shows "(\<forall>d \<in> set (task_details res).
            end_time d = start_time d + res_pert_duration d \<and>
            end_time d \<le> total_project_duration res) \<and>
         (rows fr \<noteq> [] \<and> distinct (map taskID (rows fr)) \<and>
          (\<forall>t \<in> set (rows fr).
             0 \<le> bestCaseHours t \<and> 0 \<le> expectedHours t \<and> 0 \<le> worstCaseHours t) \<longrightarrow>
          total_project_duration res = Max (end_time ` set (task_details res)))"
proof -
  note det = optimize_details [OF assms(2)]
  have "end_time d = start_time d + res_pert_duration d" if "d \<in> set (task_details res)" for d
    using that by (auto simp: det(1) detail_of_simps)
  moreover have "end_time d \<le> total_project_duration res"
    if "d \<in> set (task_details res)" for d
    using that by (rule reported_end_le_total [OF assms])
  moreover have "total_project_duration res = Max (end_time ` set (task_details res))"
    if "rows fr \<noteq> []" "distinct (map taskID (rows fr))"
      "\<forall>t \<in> set (rows fr).
             0 \<le> bestCaseHours t \<and> 0 \<le> expectedHours t \<and> 0 \<le> worstCaseHours t"
    by (rule total_eq_max_end [OF assms that])
  ultimately show ?thesis by blast
qed

theorem makespan_is_max_end_witness:
  "solver_contract (rows example_tasks) example_answer \<and>
   rows example_tasks \<noteq> [] \<and> distinct (map taskID (rows example_tasks)) \<and>
   list_all (\<lambda>t. 0 \<le> bestCaseHours t \<and> 0 \<le> expectedHours t \<and> 0 \<le> worstCaseHours t)
     (rows example_tasks) \<and>
   (\<exists>res. snd (snd (optimize_project_schedule example_answer example_tasks)) = Inr res \<and>
      task_details res \<noteq> [] \<and>
      (\<forall>d \<in> set (task_details res).
         end_time d = start_time d + res_pert_duration d \<and>
         end_time d \<le> total_project_duration res) \<and>
      total_project_duration res = 7 \<and>
      total_project_duration res = Max (end_time ` set (task_details res)))"
proof -
  obtain fr' out r where r: "optimize_project_schedule example_answer example_tasks = (fr', out, r)"
    by (cases "optimize_project_schedule example_answer example_tasks") auto
  have ok: "sol_status example_answer = Optimal" by (simp add: example_answer_def)
  from r obtain res where res: "r = Inr res" and nonempty: "task_details res \<noteq> []"
    by (auto simp: optimize_success [OF ok] example_tasks_def)
  have tot: "total_project_duration res = 7"
    using optimize_details(3) [OF r [unfolded res]] by (simp add: example_answer_def)
  have ne: "rows example_tasks \<noteq> []" by (simp add: example_tasks_def)
  have dist: "distinct (map taskID (rows example_tasks))" by (simp add: example_tasks_def)
  have nonneg: "\<forall>t \<in> set (rows example_tasks).
           0 \<le> bestCaseHours t \<and> 0 \<le> expectedHours t \<and> 0 \<le> worstCaseHours t"
    by (simp add: example_tasks_def)
  from makespan_is_max_end [OF example_contract r [unfolded res]] ne dist nonneg
  have "(\<forall>d \<in> set (task_details res).
         end_time d = start_time d + res_pert_duration d \<and>
         end_time d \<le> total_project_duration res) \<and>
      total_project_duration res = Max (end_time ` set (task_details res))"
    by blast
  moreover have "snd (snd (optimize_project_schedule example_answer example_tasks)) = Inr res"
    using r res by simp
  moreover have "list_all (\<lambda>t. 0 \<le> bestCaseHours t \<and> 0 \<le> expectedHours t \<and> 0 \<le> worstCaseHours t)
     (rows example_tasks)"
    by (simp add: example_tasks_def)
  ultimately show ?thesis using tot ne dist nonempty example_contract by blast
qed

text \<open>
  C4 as stated fails where the identifiers repeat or hours are negative. For two rows
  with the identifier A, of durations 1 and 5, the contract fixes the solver's answer:
  A starts at 0 and the total is 5, while both reported ends are 1, the first row's
  duration. For one task with the hours (-6, -6, -6) started at 0 the total is 0 and the
  end is -6.
\<close>

theorem makespan_counterexample:
  "(\<forall>ans. solver_contract (rows dup_tasks) ans \<longleftrightarrow>
      sol_status ans = Optimal \<and> start_value ans ''A'' = 0 \<and> total_value ans = 5) \<and>
   solver_contract (rows dup_tasks) dup_answer \<and>
   (case snd (snd (optimize_project_schedule dup_answer dup_tasks)) of
      Inl e \<Rightarrow> None
    | Inr res \<Rightarrow>
        Some (total_project_duration res,
              map (\<lambda>d. (res_taskID d, start_time d, end_time d)) (task_details res))) =
     Some (5, [(''A'', 0, 1), (''A'', 0, 1)]) \<and>
   solver_contract (rows negative_tasks) negative_answer \<and>
   (case snd (snd (optimize_project_schedule negative_answer negative_tasks)) of
      Inl e \<Rightarrow> None
    | Inr res \<Rightarrow>
        Some (total_project_duration res,
              map (\<lambda>d. (res_taskID d, start_time d, end_time d)) (task_details res))) =
     Some (0, [(''A'', 0, - 6)])"
proof -
  have ok: "sol_status dup_answer = Optimal" by (simp add: dup_answer_def)
  have okn: "sol_status negative_answer = Optimal" by (simp add: negative_answer_def)
  have 1: "(case snd (snd (optimize_project_schedule dup_answer dup_tasks)) of
      Inl e \<Rightarrow> None
    | Inr res \<Rightarrow>
        Some (total_project_duration res,
              map (\<lambda>d. (res_taskID d, start_time d, end_time d)) (task_details res))) =
     Some (5, [(''A'', 0, 1), (''A'', 0, 1)])"
    unfolding optimize_success [OF ok]
    by (simp add: dup_tasks_def dup_answer_def detail_of_def make_task_result_def
        loc_first_def pert_def)
  have 2: "(case snd (snd (optimize_project_schedule negative_answer negative_tasks)) of
      Inl e \<Rightarrow> None
    | Inr res \<Rightarrow>
        Some (total_project_duration res,
              map (\<lambda>d. (res_taskID d, start_time d, end_time d)) (task_details res))) =
     Some (0, [(''A'', 0, - 6)])"
    unfolding optimize_success [OF okn]
    by (simp add: negative_tasks_def negative_answer_def detail_of_def make_task_result_def
        loc_first_def pert_def)
  from dup_forced dup_contract 1 negative_contract 2 show ?thesis by blast
qed

text \<open>
  C8, as the code has it. When the solver's answer and the sort's indexer meet their
  contracts and the analysis succeeds, the float of every row is the greatest end minus
  the row's end, no float is negative, and some row has float 0. If moreover the
  identifiers are distinct and no hours are negative, the greatest end is the reported
  total, so the float of every row is the total minus the row's end.
\<close>

theorem float_is_slack_to_makespan:
  assumes "solver_contract (rows fr) ans"
    and "argsort_contract (map (\<lambda>t. start_value ans (taskID t)) (rows fr)) indexer"
    and "analyze_project_schedule indexer ans fr = (fr', out, Inr a)"
  shows "(\<forall>r \<in> set (a_schedule a).
            float_time r = Max (end_time ` set (a_schedule a)) - end_time r \<and>
            0 \<le> float_time r) \<and>
         (\<exists>r \<in> set (a_schedule a). float_time r = 0) \<and>
         (distinct (map taskID (rows fr)) \<and>
          (\<forall>t \<in> set (rows fr).
             0 \<le> bestCaseHours t \<and> 0 \<le> expectedHours t \<and> 0 \<le> worstCaseHours t) \<longrightarrow>
          (\<forall>r \<in> set (a_schedule a).
             float_time r = a_total_project_duration a - end_time r))"
proof -
  from assms(3) obtain res where opt: "optimize_project_schedule ans fr = (fr', out, Inr res)"
    and ne: "task_details res \<noteq> []"
    and tot: "a_total_project_duration a = total_project_duration res"
    and sch: "a_schedule a =
           map (\<lambda>i. map (with_float (Max (end_time ` set (task_details res))))
                       (task_details res) ! i) indexer"
    by (rule analyze_success)
  let ?m = "Max (end_time ` set (task_details res))"
  have len: "length (task_details res) = length (rows fr)"
    by (simp add: optimize_details(1) [OF opt])
  with ne have rows_ne: "rows fr \<noteq> []" by auto
  have "mset (a_schedule a) = mset (map (with_float ?m) (task_details res))"
    by (rule analyzed_rows(1) [OF assms(2) opt sch])
  then have "set (a_schedule a) = set (map (with_float ?m) (task_details res))"
    by (rule mset_eq_setD)
  then have rows_eq: "set (a_schedule a) = with_float ?m ` set (task_details res)" by simp
  then have ends: "end_time ` set (a_schedule a) = end_time ` set (task_details res)"
    by (simp add: image_image with_float_simps)
  have fin: "finite (end_time ` set (task_details res))" by simp
  have nonempty: "end_time ` set (task_details res) \<noteq> {}" using ne by simp
  have 1: "float_time r = Max (end_time ` set (a_schedule a)) - end_time r \<and> 0 \<le> float_time r"
    if "r \<in> set (a_schedule a)" for r
  proof -
    from that rows_eq obtain d where d: "d \<in> set (task_details res)" and r: "r = with_float ?m d"
      by auto
    from d fin have "end_time d \<le> ?m" by (intro Max_ge) auto
    then show ?thesis by (simp add: r with_float_simps ends)
  qed
  have 2: "\<exists>r \<in> set (a_schedule a). float_time r = 0"
  proof -
    from Max_in [OF fin nonempty] obtain d where d: "d \<in> set (task_details res)"
      and "end_time d = ?m" by auto
    then have "float_time (with_float ?m d) = 0" by (simp add: with_float_simps)
    with d rows_eq show ?thesis by blast
  qed
  have 3: "float_time r = a_total_project_duration a - end_time r"
    if "distinct (map taskID (rows fr))"
      "\<forall>t \<in> set (rows fr).
             0 \<le> bestCaseHours t \<and> 0 \<le> expectedHours t \<and> 0 \<le> worstCaseHours t"
      "r \<in> set (a_schedule a)" for r
  proof -
    have "total_project_duration res = ?m"
      by (rule total_eq_max_end [OF assms(1) opt rows_ne that(1,2)])
    with 1 [OF that(3)] show ?thesis by (simp add: tot ends)
  qed
  from 1 2 3 show ?thesis by blast
qed

theorem float_is_slack_to_makespan_witness:
  "solver_contract (rows example_tasks) example_answer \<and>
   argsort_contract (map (\<lambda>t. start_value example_answer (taskID t)) (rows example_tasks))
     example_indexer \<and>
   distinct (map taskID (rows example_tasks)) \<and>
   list_all (\<lambda>t. 0 \<le> bestCaseHours t \<and> 0 \<le> expectedHours t \<and> 0 \<le> worstCaseHours t)
     (rows example_tasks) \<and>
   (\<exists>a. snd (snd (analyze_project_schedule example_indexer example_answer example_tasks)) = Inr a \<and>
      (\<forall>r \<in> set (a_schedule a).
         float_time r = a_total_project_duration a - end_time r \<and> 0 \<le> float_time r) \<and>
      (\<exists>r \<in> set (a_schedule a). float_time r = 0))"
proof -
  have ok: "sol_status example_answer = Optimal" by (simp add: example_answer_def)
  have ne: "rows example_tasks \<noteq> []" by (simp add: example_tasks_def)
  from analyze_succeeds [OF ok ne] obtain fr' out a where a:
    "analyze_project_schedule example_indexer example_answer example_tasks = (fr', out, Inr a)"
    by blast
  have dist: "distinct (map taskID (rows example_tasks))" by (simp add: example_tasks_def)
  have nonneg: "\<forall>t \<in> set (rows example_tasks).
           0 \<le> bestCaseHours t \<and> 0 \<le> expectedHours t \<and> 0 \<le> worstCaseHours t"
    by (simp add: example_tasks_def)
  from float_is_slack_to_makespan [OF example_contract example_argsort a] dist nonneg
  have "(\<forall>r \<in> set (a_schedule a).
         float_time r = a_total_project_duration a - end_time r \<and> 0 \<le> float_time r) \<and>
      (\<exists>r \<in> set (a_schedule a). float_time r = 0)"
    by blast
  moreover have "list_all (\<lambda>t. 0 \<le> bestCaseHours t \<and> 0 \<le> expectedHours t \<and> 0 \<le> worstCaseHours t)
     (rows example_tasks)"
    by (simp add: example_tasks_def)
  moreover have
    "snd (snd (analyze_project_schedule example_indexer example_answer example_tasks)) = Inr a"
    using a by simp
  ultimately show ?thesis using dist example_contract example_argsort by blast
qed

text \<open>
  C8 as stated fails where the identifiers repeat or hours are negative, since line 91
  subtracts from the greatest reported end and not from the reported total. For the two
  rows with the identifier A the total is 5, and both rows have the end 1 and the float
  0, not 4. For the task with the hours (-6, -6, -6) the total is 0, and the row has the
  end -6 and the float 0, not 6.
\<close>

theorem float_counterexample:
  "solver_contract (rows dup_tasks) dup_answer \<and>
   argsort_contract (map (\<lambda>t. start_value dup_answer (taskID t)) (rows dup_tasks))
     dup_indexer \<and>
   (case snd (snd (analyze_project_schedule dup_indexer dup_answer dup_tasks)) of
      Inl e \<Rightarrow> None
    | Inr a \<Rightarrow>
        Some (a_total_project_duration a,
              map (\<lambda>r. (res_taskID r, end_time r, float_time r)) (a_schedule a))) =
     Some (5, [(''A'', 1, 0), (''A'', 1, 0)]) \<and>
   solver_contract (rows negative_tasks) negative_answer \<and>
   argsort_contract
     (map (\<lambda>t. start_value negative_answer (taskID t)) (rows negative_tasks))
     negative_indexer \<and>
   (case snd (snd (analyze_project_schedule negative_indexer negative_answer negative_tasks)) of
      Inl e \<Rightarrow> None
    | Inr a \<Rightarrow>
        Some (a_total_project_duration a,
              map (\<lambda>r. (res_taskID r, end_time r, float_time r)) (a_schedule a))) =
     Some (0, [(''A'', - 6, 0)])"
proof -
  have ok: "sol_status dup_answer = Optimal" by (simp add: dup_answer_def)
  have ne: "rows dup_tasks \<noteq> []" by (simp add: dup_tasks_def)
  from analyze_succeeds [OF ok ne] obtain fr' out a where a:
    "analyze_project_schedule dup_indexer dup_answer dup_tasks = (fr', out, Inr a)"
    by blast
  have r: "\<forall>i \<in> set dup_indexer. i < length (rows dup_tasks)"
    by (simp add: dup_indexer_def dup_tasks_def)
  have 1: "(case snd (snd (analyze_project_schedule dup_indexer dup_answer dup_tasks)) of
      Inl e \<Rightarrow> None
    | Inr a \<Rightarrow>
        Some (a_total_project_duration a,
              map (\<lambda>r. (res_taskID r, end_time r, float_time r)) (a_schedule a))) =
     Some (5, [(''A'', 1, 0), (''A'', 1, 0)])"
    unfolding a using analyzed_view [OF a r]
    by (simp add: dup_indexer_def dup_tasks_def dup_answer_def detail_of_def
        make_task_result_def loc_first_def pert_def)
  have okn: "sol_status negative_answer = Optimal" by (simp add: negative_answer_def)
  have nen: "rows negative_tasks \<noteq> []" by (simp add: negative_tasks_def)
  from analyze_succeeds [OF okn nen] obtain frn outn an where an:
    "analyze_project_schedule negative_indexer negative_answer negative_tasks =
       (frn, outn, Inr an)"
    by blast
  have rn: "\<forall>i \<in> set negative_indexer. i < length (rows negative_tasks)"
    by (simp add: negative_indexer_def negative_tasks_def)
  have 2: "(case snd (snd (analyze_project_schedule negative_indexer negative_answer
                negative_tasks)) of
      Inl e \<Rightarrow> None
    | Inr a \<Rightarrow>
        Some (a_total_project_duration a,
              map (\<lambda>r. (res_taskID r, end_time r, float_time r)) (a_schedule a))) =
     Some (0, [(''A'', - 6, 0)])"
    unfolding an using analyzed_view [OF an rn]
    by (simp add: negative_indexer_def negative_tasks_def negative_answer_def detail_of_def
        make_task_result_def loc_first_def pert_def)
  from dup_contract dup_argsort 1 negative_contract negative_argsort 2 show ?thesis by blast
qed




end
